theory Spec2Isabelle
  imports Main
begin

section \<open>The task consumer of package async\<close>

text \<open>
  The consumer pulls deliveries from a broker channel, decodes and validates each one,
  dispatches it to the manager and answers the broker with \<open>Ack(false)\<close> or
  \<open>Reject(false)\<close>. Its collaborators (codec, JSON handler, validator, manager, the
  delivery's acknowledger, the payload pool) are interfaces of other packages; the model
  takes what each of their calls returns as a parameter and records the calls the
  consumer makes, in order, as a list of events.
\<close>

subsection \<open>Data\<close>

text \<open>A Go \<open>error\<close> value is \<open>error option\<close>: \<open>None\<close> is \<open>nil\<close>.\<close>

type_synonym error = string

text \<open>The envelope returned by the codec: the fields \<open>handle\<close> reads.\<close>

record message =
  UUID :: string
  Payload :: string

text \<open>
  The fields of \<open>taskConsumer\<close> that \<open>handle\<close> calls, each as the function of the one
  method used: \<open>manager.Run(ctx, param)\<close>, \<open>marshal.Unmarshal(&d)\<close>,
  \<open>handler.Unmarshal(payload, param)\<close> (which fills \<open>param\<close>) and
  \<open>validator.ValidateStruct(param)\<close>. Type \<open>'d\<close> is \<open>amqp.Delivery\<close>, type \<open>'p\<close> the
  task parameter.
\<close>

record ('d, 'p) taskConsumer =
  manager_Run :: "'p \<Rightarrow> error option"
  marshal_Unmarshal :: "'d \<Rightarrow> error + message"
  handler_Unmarshal :: "string \<Rightarrow> 'p \<Rightarrow> error + 'p"
  validator_ValidateStruct :: "'p \<Rightarrow> error option"

text \<open>
  What the functions outside the consumer return: \<open>Get()\<close> of the payload pool, and the
  delivery's \<open>Reject(requeue)\<close> and \<open>Ack(multiple)\<close>.
\<close>

record ('d, 'p) extern =
  Get :: "'p"
  Reject :: "'d \<Rightarrow> bool \<Rightarrow> error option"
  Ack :: "'d \<Rightarrow> bool \<Rightarrow> error option"

text \<open>The calls \<open>handle\<close> makes that are visible outside it.\<close>

datatype 'p event =
    LogError string error
  | LogDebugf string
  | EvGet
  | EvPut 'p
  | EvRun 'p
  | EvReject bool
  | EvAck bool

fun is_terminal :: "'p event \<Rightarrow> bool" where
  "is_terminal (EvReject requeue) = True"
| "is_terminal (EvAck multiple) = True"
| "is_terminal e = False"

fun is_Put :: "'p event \<Rightarrow> bool" where
  "is_Put (EvPut p) = True"
| "is_Put e = False"

fun is_Run :: "'p event \<Rightarrow> bool" where
  "is_Run (EvRun p) = True"
| "is_Run e = False"

subsection \<open>handle\<close>

text \<open>
  \<open>handle\<close> returns the events in the order of the calls and the error it returns.
  Each \<open>if err = d.Reject(false); err != nil { return err }; return nil\<close> of the source
  is the inner \<open>case\<close> on the result of \<open>Reject\<close>.
\<close>

definition handle ::
  "('d, 'p) extern \<Rightarrow> ('d, 'p) taskConsumer \<Rightarrow> 'd \<Rightarrow> 'p event list \<times> error option" where
  "handle x t d =
    (case marshal_Unmarshal t d of
       Inl err \<Rightarrow>
         ([LogError ''unmarshal failed'' err, EvReject False],
          (case Reject x d False of Some err \<Rightarrow> Some err | None \<Rightarrow> None))
     | Inr msgStruct \<Rightarrow>
         (let param = Get x in
          case handler_Unmarshal t (Payload msgStruct) param of
            Inl err \<Rightarrow>
              ([LogDebugf (Payload msgStruct), EvGet,
                LogError ''unmarshal failed'' err, EvReject False],
               (case Reject x d False of Some err \<Rightarrow> Some err | None \<Rightarrow> None))
          | Inr param \<Rightarrow>
              (case validator_ValidateStruct t param of
                 Some err \<Rightarrow>
                   ([LogDebugf (Payload msgStruct), EvGet,
                     LogError ''validate struct failed'' err, EvReject False],
                    (case Reject x d False of Some err \<Rightarrow> Some err | None \<Rightarrow> None))
               | None \<Rightarrow>
                   (case manager_Run t param of
                      Some err \<Rightarrow>
                        ([LogDebugf (Payload msgStruct), EvGet, EvRun param, EvPut param,
                          LogError ''run failed'' err, EvReject False],
                         (case Reject x d False of Some err \<Rightarrow> Some err | None \<Rightarrow> None))
                    | None \<Rightarrow>
                        ([LogDebugf (Payload msgStruct), EvGet, EvRun param, EvPut param,
                          EvAck False],
                         Ack x d False)))))"

text \<open>
  A consumer and an environment to run \<open>handle\<close> on: deliveries and task parameters are
  strings. The codec fails on the empty delivery, the JSON handler on the payload
  \<open>bad\<close>, the validator on \<open>invalid\<close>; the manager knows the tasks \<open>ping\<close> and \<open>pong\<close> only. The
  broker fails to reject the empty delivery and to acknowledge \<open>pong\<close>.
\<close>

definition demo_consumer :: "(string, string) taskConsumer" where
  "demo_consumer =
    \<lparr> manager_Run = (\<lambda>p. if p = ''ping'' \<or> p = ''pong'' then None else Some ''boom''),
      marshal_Unmarshal =
        (\<lambda>d. if d = [] then Inl ''no body'' else Inr \<lparr> UUID = ''u1'', Payload = d \<rparr>),
      handler_Unmarshal = (\<lambda>payload p. if payload = ''bad'' then Inl ''json'' else Inr payload),
      validator_ValidateStruct = (\<lambda>p. if p = ''invalid'' then Some ''required'' else None) \<rparr>"

definition demo_extern :: "(string, string) extern" where
  "demo_extern =
    \<lparr> Get = [],
      Reject = (\<lambda>d requeue. if d = [] then Some ''delivery not initialized'' else None),
      Ack = (\<lambda>d multiple. if d = ''pong'' then Some ''channel closed'' else None) \<rparr>"

subsection \<open>The loops of Subscribe\<close>

text \<open>
  The goroutine started by \<open>Subscribe\<close> and \<open>handleMessage\<close> run until the context is
  canceled, so they are modelled with fuel: \<open>Running\<close> is the value of a loop that is
  still going when the fuel is used up, \<open>Blocked\<close> that of a \<open>select\<close> none of whose
  cases can ever proceed.
\<close>

datatype 'a outcome = Returned 'a | Blocked | Running

text \<open>
  A delivery stream (\<open><-chan amqp.Delivery\<close>): the deliveries the broker still sends on
  it, and whether the broker closes it after them or leaves it open and idle.
\<close>

record 'd chan =
  pending :: "'d list"
  closed :: bool

text \<open>
  The surroundings of the loops. The clock \<open>now\<close> counts the \<open>select\<close> statements the
  goroutine has executed; \<open>cancel_at = Some c\<close> says that \<open>ctx.Done()\<close> is closed from
  clock value \<open>c\<close> on, \<open>None\<close> that the context is never canceled. When both cases of
  the \<open>select\<close> in \<open>handleMessage\<close> can proceed Go takes one of them at random:
  \<open>pick_done now\<close> says whether it takes \<open>ctx.Done()\<close>. \<open>Consume k\<close> is what the
  \<open>k\<close>-th call of \<open>channel.Consume\<close> returns, and \<open>zero_delivery\<close> is the zero value
  of \<open>amqp.Delivery\<close>.
\<close>

record 'd world =
  cancel_at :: "nat option"
  pick_done :: "nat \<Rightarrow> bool"
  Consume :: "nat \<Rightarrow> error + 'd chan"
  zero_delivery :: "'d"

definition ctx_done :: "'d world \<Rightarrow> nat \<Rightarrow> bool" where
  "ctx_done w now = (case cancel_at w of None \<Rightarrow> False | Some c \<Rightarrow> c \<le> now)"

text \<open>
  The receive \<open>v := <-deliveries\<close>: the value and the rest of the stream when the
  receive can proceed, \<open>None\<close> when it blocks. A receive from a closed channel proceeds
  at once with the zero value.
\<close>

definition recv :: "'d world \<Rightarrow> 'd chan \<Rightarrow> ('d \<times> 'd chan) option" where
  "recv w ch =
    (case pending ch of
       v # rest \<Rightarrow> Some (v, ch\<lparr>pending := rest\<rparr>)
     | [] \<Rightarrow> if closed ch then Some (zero_delivery w, ch) else None)"

text \<open>
  The calls of the goroutine that are visible outside it; the trace pairs each with the
  clock value of the loop iteration that made it. The last argument of \<open>EvConsume\<close> is
  the \<open>amqp.Table\<close>, \<open>None\<close> for \<open>nil\<close>.
\<close>

datatype 'd loop_event =
    EvConsume string string bool bool bool bool "(string \<times> string) list option"
  | LogConsumer string error
  | EvGo 'd

fun is_Consume :: "'d loop_event \<Rightarrow> bool" where
  "is_Consume (EvConsume queue consumer autoAck exclusive noLocal noWait args) = True"
| "is_Consume e = False"

fun is_Go :: "'d loop_event \<Rightarrow> bool" where
  "is_Go (EvGo v) = True"
| "is_Go e = False"

fun submitted :: "(nat \<times> 'd loop_event) list \<Rightarrow> 'd list" where
  "submitted [] = []"
| "submitted ((now, EvGo v) # evs) = v # submitted evs"
| "submitted (e # evs) = submitted evs"

text \<open>
  \<open>handleMessage\<close>: one \<open>select\<close> per unit of fuel. When the receive blocks, only
  \<open>ctx.Done()\<close> can proceed, and it does when the context is canceled.
\<close>

fun handleMessage ::
  "nat \<Rightarrow> 'd world \<Rightarrow> nat \<Rightarrow> 'd chan \<Rightarrow> (nat \<times> 'd loop_event) list \<times> nat outcome" where
  "handleMessage 0 w now deliveries = ([], Running)"
| "handleMessage (Suc fuel) w now deliveries =
    (case recv w deliveries of
       None \<Rightarrow>
         (case cancel_at w of
            None \<Rightarrow> ([], Blocked)
          | Some c \<Rightarrow> ([], Returned (Suc (max now c))))
     | Some (v, deliveries') \<Rightarrow>
         if ctx_done w now \<and> pick_done w now then ([], Returned (Suc now))
         else (case handleMessage fuel w (Suc now) deliveries' of
                 (evs, r) \<Rightarrow> ((now, EvGo v) # evs, r)))"

text \<open>The function that \<open>handleMessage\<close> hands to the pool for a delivery.\<close>

definition handleMessage_func1 ::
  "('d, 'p) extern \<Rightarrow> ('d, 'p) taskConsumer \<Rightarrow> 'd \<Rightarrow> 'p event list" where
  "handleMessage_func1 x t v =
    (case handle x t v of
       (evs, Some err) \<Rightarrow> evs @ [LogError ''handle failed'' err]
     | (evs, None) \<Rightarrow> evs)"

text \<open>
  The function that \<open>Subscribe\<close> hands to the pool: \<open>fuel\<close> bounds the iterations of
  its loop, \<open>m\<close> those of each run of \<open>handleMessage\<close>; \<open>k\<close> counts the calls of
  \<open>Consume\<close>.
\<close>

fun Subscribe_func1 ::
  "nat \<Rightarrow> nat \<Rightarrow> 'd world \<Rightarrow> string \<Rightarrow> nat \<Rightarrow> nat \<Rightarrow>
   (nat \<times> 'd loop_event) list \<times> unit outcome" where
  "Subscribe_func1 0 m w queueName now k = ([], Running)"
| "Subscribe_func1 (Suc fuel) m w queueName now k =
    (if ctx_done w now then ([], Returned ())
     else
       (case Consume w k of
          Inl err \<Rightarrow>
            (case Subscribe_func1 fuel m w queueName (Suc now) (Suc k) of
               (evs, r) \<Rightarrow>
                 ((now, EvConsume queueName (''consumer.'' @ queueName)
                          False False False False None) #
                  (now, LogConsumer ''consumer failed'' err) # evs, r))
        | Inr deliveries \<Rightarrow>
            (case handleMessage m w (Suc now) deliveries of
               (evs, Returned now') \<Rightarrow>
                 (case Subscribe_func1 fuel m w queueName now' (Suc k) of
                    (evs', r) \<Rightarrow>
                      ((now, EvConsume queueName (''consumer.'' @ queueName)
                               False False False False None) # evs @ evs', r))
             | (evs, Blocked) \<Rightarrow>
                 ((now, EvConsume queueName (''consumer.'' @ queueName)
                          False False False False None) # evs, Blocked)
             | (evs, Running) \<Rightarrow>
                 ((now, EvConsume queueName (''consumer.'' @ queueName)
                          False False False False None) # evs, Running))))"

text \<open>
  Modelled from the spec: the worker pool (package \<open>routine\<close>) is not among the sources.
  \<open>Go(fn)\<close> schedules \<open>fn\<close> and returns at once; \<open>Wait()\<close> blocks until every
  scheduled function has returned; the pool does not interrupt a running function.
  So \<open>Subscribe\<close> returns, with the \<open>nil\<close> of its last line, when its goroutine has
  returned; every submitted delivery is run through \<open>handleMessage_func1\<close>. The result
  is the outcome, the trace of the goroutine and the events of each task.
\<close>

definition Subscribe ::
  "nat \<Rightarrow> nat \<Rightarrow> ('d, 'p) extern \<Rightarrow> ('d, 'p) taskConsumer \<Rightarrow> 'd world \<Rightarrow> string \<Rightarrow>
   error option outcome \<times> (nat \<times> 'd loop_event) list \<times> 'p event list list" where
  "Subscribe fuel m x t w queueName =
    (case Subscribe_func1 fuel m w queueName 0 0 of
       (evs, r) \<Rightarrow>
         ((case r of Returned u \<Rightarrow> Returned None | Blocked \<Rightarrow> Blocked | Running \<Rightarrow> Running),
          evs, map (handleMessage_func1 x t) (submitted evs)))"

text \<open>
  Worlds to run the loops in. In \<open>demo_world\<close> the first two calls of \<open>Consume\<close> fail,
  the third opens a stream with two deliveries that stays open, and the context is
  canceled at clock value 5. In \<open>never_canceled\<close> the context is never canceled. In
  \<open>late_world\<close> the context is canceled at clock value 2, while deliveries are
  waiting on the stream, and \<open>select\<close> takes the receive at clock value 2 and
  \<open>ctx.Done()\<close> from clock value 3 on.
\<close>

definition demo_world :: "string world" where
  "demo_world =
    \<lparr> cancel_at = Some 5,
      pick_done = (\<lambda>now. True),
      Consume = (\<lambda>k. if k < 2 then Inl ''channel not open''
                      else Inr \<lparr> pending = [''ping'', ''pong''], closed = False \<rparr>),
      zero_delivery = [] \<rparr>"

definition never_canceled :: "string world" where
  "never_canceled =
    \<lparr> cancel_at = None,
      pick_done = (\<lambda>now. True),
      Consume = (\<lambda>k. Inr \<lparr> pending = [], closed = True \<rparr>),
      zero_delivery = [] \<rparr>"

definition late_world :: "string world" where
  "late_world =
    \<lparr> cancel_at = Some 2,
      pick_done = (\<lambda>now. 3 \<le> now),
      Consume = (\<lambda>k. Inr \<lparr> pending = [''ping'', ''pong'', ''bad''], closed = False \<rparr>),
      zero_delivery = [] \<rparr>"

section \<open>Properties of handle\<close>

lemmas demo_defs = demo_consumer_def demo_extern_def

text \<open>
  Whatever the collaborators return, the broker calls of \<open>handle\<close> are one
  \<open>Reject(false)\<close> or one \<open>Ack(false)\<close>.
\<close>

lemma handle_terminal_cases:
  "filter is_terminal (fst (handle x t d)) = [EvReject False] \<or>
   filter is_terminal (fst (handle x t d)) = [EvAck False]"
  by (simp add: handle_def Let_def split: sum.splits option.splits)

text \<open>
  Claim C1: for every delivery that \<open>handle\<close> processes exactly one terminal broker
  call is made, either one \<open>Ack\<close> or one \<open>Reject\<close> with \<open>requeue = false\<close>, never
  both and never neither, on every path (codec failure, payload decode failure,
  validation failure, handler error, handler success).
\<close>

theorem handle_one_terminal_call:
  "filter is_terminal (fst (handle x t d)) = [EvReject False] \<or>
   filter is_terminal (fst (handle x t d)) = [EvAck False]"
  by (rule handle_terminal_cases)

text \<open>
  Claim C2: for a delivery that decodes and validates, \<open>handle\<close> calls \<open>Ack(false)\<close>
  exactly once and never \<open>Reject\<close> when the manager returns \<open>nil\<close>, and
  \<open>Reject(false)\<close> exactly once and never \<open>Ack\<close> when the manager returns an error.
\<close>

theorem handle_dispatch_outcome:
  assumes "marshal_Unmarshal t d = Inr m"
    and "handler_Unmarshal t (Payload m) (Get x) = Inr p"
    and "validator_ValidateStruct t p = None"
  shows "(manager_Run t p = None \<longrightarrow>
           filter is_terminal (fst (handle x t d)) = [EvAck False]) \<and>
         (\<forall>err. manager_Run t p = Some err \<longrightarrow>
           filter is_terminal (fst (handle x t d)) = [EvReject False])"
  using assms by (simp add: handle_def Let_def)

theorem handle_dispatch_outcome_witness:
  "marshal_Unmarshal demo_consumer ''ping'' = Inr \<lparr> UUID = ''u1'', Payload = ''ping'' \<rparr> \<and>
   handler_Unmarshal demo_consumer ''ping'' (Get demo_extern) = Inr ''ping'' \<and>
   validator_ValidateStruct demo_consumer ''ping'' = None \<and>
   manager_Run demo_consumer ''ping'' = None \<and>
   filter is_terminal (fst (handle demo_extern demo_consumer ''ping'')) = [EvAck False] \<and>
   manager_Run demo_consumer ''x'' = Some ''boom'' \<and>
   filter is_terminal (fst (handle demo_extern demo_consumer ''x'')) = [EvReject False]"
proof -
  have a: "marshal_Unmarshal demo_consumer ''ping'' = Inr \<lparr> UUID = ''u1'', Payload = ''ping'' \<rparr>"
    by (simp add: demo_defs)
  have b: "handler_Unmarshal demo_consumer (Payload \<lparr> UUID = ''u1'', Payload = ''ping'' \<rparr>) (Get demo_extern) = Inr ''ping''"
    by (simp add: demo_defs)
  have c: "validator_ValidateStruct demo_consumer ''ping'' = None"
    by (simp add: demo_defs)
  have a': "marshal_Unmarshal demo_consumer ''x'' = Inr \<lparr> UUID = ''u1'', Payload = ''x'' \<rparr>"
    by (simp add: demo_defs)
  have b': "handler_Unmarshal demo_consumer (Payload \<lparr> UUID = ''u1'', Payload = ''x'' \<rparr>) (Get demo_extern) = Inr ''x''"
    by (simp add: demo_defs)
  have c': "validator_ValidateStruct demo_consumer ''x'' = None"
    by (simp add: demo_defs)
  have r: "manager_Run demo_consumer ''ping'' = None" "manager_Run demo_consumer ''x'' = Some ''boom''"
    by (simp_all add: demo_defs)
  from handle_dispatch_outcome [OF a b c, of ] handle_dispatch_outcome [OF a' b' c'] r a b c
  show ?thesis by simp
qed

text \<open>
  Claim C3: when the codec's \<open>Unmarshal\<close> fails, \<open>handle\<close> calls \<open>Reject(false)\<close>
  exactly once, never \<open>Ack\<close>, never reaches \<open>manager.Run\<close>, and stops: the
  \<open>Reject\<close> is its last call.
\<close>

theorem handle_codec_failure:
  assumes "marshal_Unmarshal t d = Inl err"
  shows "fst (handle x t d) = [LogError ''unmarshal failed'' err, EvReject False] \<and>
         filter is_terminal (fst (handle x t d)) = [EvReject False] \<and>
         filter is_Run (fst (handle x t d)) = [] \<and>
         last (fst (handle x t d)) = EvReject False"
  using assms by (simp add: handle_def)

theorem handle_codec_failure_witness:
  "marshal_Unmarshal demo_consumer [] = Inl ''no body'' \<and>
   fst (handle demo_extern demo_consumer []) = [LogError ''unmarshal failed'' ''no body'', EvReject False] \<and>
   filter is_terminal (fst (handle demo_extern demo_consumer [])) = [EvReject False] \<and>
   filter is_Run (fst (handle demo_extern demo_consumer [])) = [] \<and>
   last (fst (handle demo_extern demo_consumer [])) = EvReject False"
proof -
  have a: "marshal_Unmarshal demo_consumer [] = Inl ''no body''"
    by (simp add: demo_defs)
  from handle_codec_failure [OF a, of demo_extern] a show ?thesis by simp
qed

text \<open>
  Claim C4: when the payload fails to decode into the task parameter, or the decoded
  parameter fails validation, \<open>handle\<close> rejects with \<open>requeue = false\<close> and gives the
  parameter taken with \<open>Get()\<close> back to the pool with \<open>Put\<close> before it stops.
  The code does not: on both paths it takes the parameter, rejects and returns, and
  \<open>Put\<close> is not among its calls. It calls \<open>Put\<close> on the dispatch path only.
\<close>

theorem handle_error_path_no_Put:
  "fst (handle demo_extern demo_consumer ''bad'') =
     [LogDebugf ''bad'', EvGet, LogError ''unmarshal failed'' ''json'', EvReject False] \<and>
   fst (handle demo_extern demo_consumer ''invalid'') =
     [LogDebugf ''invalid'', EvGet, LogError ''validate struct failed'' ''required'', EvReject False]"
  by (simp add: handle_def demo_defs)

text \<open>
  Claim C8: for every delivery that reaches dispatch, the task parameter goes back to
  the pool (\<open>Put\<close>) right after \<open>manager.Run\<close> returns and before any terminal
  \<open>Ack\<close> or \<open>Reject\<close>, whether \<open>Run\<close> returned \<open>nil\<close> or an error.
\<close>

theorem handle_Put_after_Run:
  assumes "marshal_Unmarshal t d = Inr m"
    and "handler_Unmarshal t (Payload m) (Get x) = Inr p"
    and "validator_ValidateStruct t p = None"
  shows "\<exists>pre post. fst (handle x t d) = pre @ [EvRun p, EvPut p] @ post \<and>
           filter is_terminal pre = [] \<and> filter is_Put (pre @ post) = [] \<and>
           filter is_Run (pre @ post) = [] \<and> filter is_terminal post \<noteq> []"
proof (cases "manager_Run t p")
  case None
  with assms have "fst (handle x t d) = [LogDebugf (Payload m), EvGet] @ [EvRun p, EvPut p] @ [EvAck False]"
    by (simp add: handle_def)
  then show ?thesis
    by (intro exI [of _ "[LogDebugf (Payload m), EvGet]"] exI [of _ "[EvAck False]"]) simp
next
  case (Some err)
  with assms have "fst (handle x t d) =
      [LogDebugf (Payload m), EvGet] @ [EvRun p, EvPut p] @ [LogError ''run failed'' err, EvReject False]"
    by (simp add: handle_def)
  then show ?thesis
    by (intro exI [of _ "[LogDebugf (Payload m), EvGet]"]
          exI [of _ "[LogError ''run failed'' err, EvReject False]"]) simp
qed

theorem handle_Put_after_Run_witness:
  "marshal_Unmarshal demo_consumer ''x'' = Inr \<lparr> UUID = ''u1'', Payload = ''x'' \<rparr> \<and>
   handler_Unmarshal demo_consumer ''x'' (Get demo_extern) = Inr ''x'' \<and>
   validator_ValidateStruct demo_consumer ''x'' = None \<and>
   (\<exists>pre post. fst (handle demo_extern demo_consumer ''x'') = pre @ [EvRun ''x'', EvPut ''x''] @ post \<and>
      filter is_terminal pre = [] \<and> filter is_Put (pre @ post) = [] \<and>
      filter is_Run (pre @ post) = [] \<and> filter is_terminal post \<noteq> [])"
proof -
  have a: "marshal_Unmarshal demo_consumer ''x'' = Inr \<lparr> UUID = ''u1'', Payload = ''x'' \<rparr>"
    by (simp add: demo_defs)
  have b: "handler_Unmarshal demo_consumer (Payload \<lparr> UUID = ''u1'', Payload = ''x'' \<rparr>)
             (Get demo_extern) = Inr ''x''"
    by (simp add: demo_defs)
  have c: "validator_ValidateStruct demo_consumer ''x'' = None"
    by (simp add: demo_defs)
  from handle_Put_after_Run [OF a b c] a b c show ?thesis by simp
qed

text \<open>
  Claim C10: \<open>handle\<close> returns a non-nil error only when its terminal broker call
  (\<open>Reject\<close> or \<open>Ack\<close>) returns one; every codec failure, payload decode failure,
  validation failure and handler error is absorbed: it is logged and turned into one
  \<open>Reject(false)\<close>, and \<open>handle\<close> returns what that \<open>Reject\<close> returns, \<open>nil\<close> when
  the broker accepts it. On success \<open>handle\<close> returns what \<open>Ack(false)\<close> returns.
\<close>

theorem handle_error_only_from_broker:
  "(\<forall>e. snd (handle x t d) = Some e \<longrightarrow>
      (filter is_terminal (fst (handle x t d)) = [EvReject False] \<and> Reject x d False = Some e) \<or>
      (filter is_terminal (fst (handle x t d)) = [EvAck False] \<and> Ack x d False = Some e)) \<and>
   (filter is_terminal (fst (handle x t d)) = [EvReject False] \<and> Reject x d False = None \<longrightarrow>
      snd (handle x t d) = None) \<and>
   (\<forall>err. marshal_Unmarshal t d = Inl err \<longrightarrow>
      LogError ''unmarshal failed'' err \<in> set (fst (handle x t d)) \<and>
      filter is_terminal (fst (handle x t d)) = [EvReject False] \<and>
      snd (handle x t d) = Reject x d False) \<and>
   (\<forall>m err. marshal_Unmarshal t d = Inr m \<and>
        handler_Unmarshal t (Payload m) (Get x) = Inl err \<longrightarrow>
      LogError ''unmarshal failed'' err \<in> set (fst (handle x t d)) \<and>
      filter is_terminal (fst (handle x t d)) = [EvReject False] \<and>
      snd (handle x t d) = Reject x d False) \<and>
   (\<forall>m p err. marshal_Unmarshal t d = Inr m \<and>
        handler_Unmarshal t (Payload m) (Get x) = Inr p \<and>
        validator_ValidateStruct t p = Some err \<longrightarrow>
      LogError ''validate struct failed'' err \<in> set (fst (handle x t d)) \<and>
      filter is_terminal (fst (handle x t d)) = [EvReject False] \<and>
      snd (handle x t d) = Reject x d False) \<and>
   (\<forall>m p err. marshal_Unmarshal t d = Inr m \<and>
        handler_Unmarshal t (Payload m) (Get x) = Inr p \<and>
        validator_ValidateStruct t p = None \<and> manager_Run t p = Some err \<longrightarrow>
      LogError ''run failed'' err \<in> set (fst (handle x t d)) \<and>
      filter is_terminal (fst (handle x t d)) = [EvReject False] \<and>
      snd (handle x t d) = Reject x d False) \<and>
   (\<forall>m p. marshal_Unmarshal t d = Inr m \<and>
        handler_Unmarshal t (Payload m) (Get x) = Inr p \<and>
        validator_ValidateStruct t p = None \<and> manager_Run t p = None \<longrightarrow>
      filter is_terminal (fst (handle x t d)) = [EvAck False] \<and>
      snd (handle x t d) = Ack x d False)"
proof (intro conjI allI impI)
  fix e assume "snd (handle x t d) = Some e"
  then show "(filter is_terminal (fst (handle x t d)) = [EvReject False] \<and> Reject x d False = Some e) \<or>
      (filter is_terminal (fst (handle x t d)) = [EvAck False] \<and> Ack x d False = Some e)"
    by (auto simp add: handle_def Let_def split: sum.splits option.splits)
next
  assume "filter is_terminal (fst (handle x t d)) = [EvReject False] \<and> Reject x d False = None"
  then show "snd (handle x t d) = None"
    by (auto simp add: handle_def Let_def split: sum.splits option.splits)
qed (auto simp add: handle_def Let_def split: option.splits)

theorem handle_error_only_from_broker_witness:
  "marshal_Unmarshal demo_consumer [] = Inl ''no body'' \<and>
   LogError ''unmarshal failed'' ''no body'' \<in> set (fst (handle demo_extern demo_consumer [])) \<and>
   filter is_terminal (fst (handle demo_extern demo_consumer [])) = [EvReject False] \<and>
   Reject demo_extern [] False = Some ''delivery not initialized'' \<and>
   snd (handle demo_extern demo_consumer []) = Some ''delivery not initialized'' \<and>
   handler_Unmarshal demo_consumer ''bad'' (Get demo_extern) = Inl ''json'' \<and>
   LogError ''unmarshal failed'' ''json'' \<in> set (fst (handle demo_extern demo_consumer ''bad'')) \<and>
   filter is_terminal (fst (handle demo_extern demo_consumer ''bad'')) = [EvReject False] \<and>
   Reject demo_extern ''bad'' False = None \<and>
   snd (handle demo_extern demo_consumer ''bad'') = None \<and>
   validator_ValidateStruct demo_consumer ''invalid'' = Some ''required'' \<and>
   LogError ''validate struct failed'' ''required'' \<in>
     set (fst (handle demo_extern demo_consumer ''invalid'')) \<and>
   filter is_terminal (fst (handle demo_extern demo_consumer ''invalid'')) = [EvReject False] \<and>
   snd (handle demo_extern demo_consumer ''invalid'') = None \<and>
   manager_Run demo_consumer ''x'' = Some ''boom'' \<and>
   LogError ''run failed'' ''boom'' \<in> set (fst (handle demo_extern demo_consumer ''x'')) \<and>
   filter is_terminal (fst (handle demo_extern demo_consumer ''x'')) = [EvReject False] \<and>
   snd (handle demo_extern demo_consumer ''x'') = None \<and>
   manager_Run demo_consumer ''pong'' = None \<and>
   filter is_terminal (fst (handle demo_extern demo_consumer ''pong'')) = [EvAck False] \<and>
   Ack demo_extern ''pong'' False = Some ''channel closed'' \<and>
   snd (handle demo_extern demo_consumer ''pong'') = Some ''channel closed''"
proof -
  have m0: "marshal_Unmarshal demo_consumer [] = Inl ''no body''"
    by (simp add: demo_defs)
  have m: "marshal_Unmarshal demo_consumer ''bad'' = Inr \<lparr> UUID = ''u1'', Payload = ''bad'' \<rparr>"
    "marshal_Unmarshal demo_consumer ''invalid'' = Inr \<lparr> UUID = ''u1'', Payload = ''invalid'' \<rparr>"
    "marshal_Unmarshal demo_consumer ''x'' = Inr \<lparr> UUID = ''u1'', Payload = ''x'' \<rparr>"
    "marshal_Unmarshal demo_consumer ''pong'' = Inr \<lparr> UUID = ''u1'', Payload = ''pong'' \<rparr>"
    by (simp_all add: demo_defs)
  have h: "handler_Unmarshal demo_consumer ''bad'' (Get demo_extern) = Inl ''json''"
    "handler_Unmarshal demo_consumer ''invalid'' (Get demo_extern) = Inr ''invalid''"
    "handler_Unmarshal demo_consumer ''x'' (Get demo_extern) = Inr ''x''"
    "handler_Unmarshal demo_consumer ''pong'' (Get demo_extern) = Inr ''pong''"
    by (simp_all add: demo_defs)
  have v: "validator_ValidateStruct demo_consumer ''invalid'' = Some ''required''"
    "validator_ValidateStruct demo_consumer ''x'' = None"
    "validator_ValidateStruct demo_consumer ''pong'' = None"
    by (simp_all add: demo_defs)
  have r: "manager_Run demo_consumer ''x'' = Some ''boom''"
    "manager_Run demo_consumer ''pong'' = None"
    by (simp_all add: demo_defs)
  have b: "Reject demo_extern [] False = Some ''delivery not initialized''"
    "Reject demo_extern ''bad'' False = None"
    "Reject demo_extern ''invalid'' False = None"
    "Reject demo_extern ''x'' False = None"
    "Ack demo_extern ''pong'' False = Some ''channel closed''"
    by (simp_all add: demo_defs)
  have p0: "LogError ''unmarshal failed'' ''no body'' \<in> set (fst (handle demo_extern demo_consumer [])) \<and>
      filter is_terminal (fst (handle demo_extern demo_consumer [])) = [EvReject False] \<and>
      snd (handle demo_extern demo_consumer []) = Some ''delivery not initialized''"
    using handle_error_only_from_broker [of demo_extern demo_consumer "[]"] m0 b by simp
  have p1: "LogError ''unmarshal failed'' ''json'' \<in> set (fst (handle demo_extern demo_consumer ''bad'')) \<and>
      filter is_terminal (fst (handle demo_extern demo_consumer ''bad'')) = [EvReject False] \<and>
      snd (handle demo_extern demo_consumer ''bad'') = None"
    using handle_error_only_from_broker [of demo_extern demo_consumer "''bad''"] m h b by simp
  have p2: "LogError ''validate struct failed'' ''required'' \<in>
        set (fst (handle demo_extern demo_consumer ''invalid'')) \<and>
      filter is_terminal (fst (handle demo_extern demo_consumer ''invalid'')) = [EvReject False] \<and>
      snd (handle demo_extern demo_consumer ''invalid'') = None"
    using handle_error_only_from_broker [of demo_extern demo_consumer "''invalid''"] m h v b by simp
  have p3: "LogError ''run failed'' ''boom'' \<in> set (fst (handle demo_extern demo_consumer ''x'')) \<and>
      filter is_terminal (fst (handle demo_extern demo_consumer ''x'')) = [EvReject False] \<and>
      snd (handle demo_extern demo_consumer ''x'') = None"
    using handle_error_only_from_broker [of demo_extern demo_consumer "''x''"] m h v r b by simp
  have p4: "filter is_terminal (fst (handle demo_extern demo_consumer ''pong'')) = [EvAck False] \<and>
      snd (handle demo_extern demo_consumer ''pong'') = Some ''channel closed''"
    using handle_error_only_from_broker [of demo_extern demo_consumer "''pong''"] m h v r b by simp
  from m0 h(1) v(1) r b p0 p1 p2 p3 p4 show ?thesis by simp
qed

section \<open>Properties of the loops\<close>

subsection \<open>Traces\<close>

lemma handleMessage_func1_terminal:
  "length (filter is_terminal (handleMessage_func1 x t v)) = 1"
proof -
  obtain evs r where h: "handle x t v = (evs, r)" by (cases "handle x t v")
  with handle_terminal_cases [of x t v] have "length (filter is_terminal evs) = 1"
    by auto
  with h show ?thesis
    by (cases r) (simp_all add: handleMessage_func1_def)
qed

lemma handleMessage_closed_spins:
  assumes "cancel_at w = None"
  shows "handleMessage fuel w now \<lparr> pending = [], closed = True \<rparr> =
           (map (\<lambda>i. (i, EvGo (zero_delivery w))) [now..<now + fuel], Running)"
proof (induction fuel arbitrary: now)
  case 0
  show ?case by simp
next
  case (Suc fuel)
  have r: "recv w \<lparr> pending = [], closed = True \<rparr> =
             Some (zero_delivery w, \<lparr> pending = [], closed = True \<rparr>)"
    by (simp add: recv_def)
  have c: "\<not> ctx_done w now"
    using assms by (simp add: ctx_done_def)
  have u: "[now..<Suc (now + fuel)] = now # [Suc now..<Suc (now + fuel)]"
    by (simp add: upt_conv_Cons del: upt_Suc)
  show ?case
    using r c Suc.IH [of "Suc now"] by (simp add: u del: upt_Suc)
qed

text \<open>
  Every event of \<open>handleMessage\<close> is a submission, and one made while the context is
  canceled comes from a \<open>select\<close> that took the receive.
\<close>

lemma handleMessage_trace:
  "(\<tau>, e) \<in> set (fst (handleMessage fuel w now ch)) \<Longrightarrow>
     is_Go e \<and> now \<le> \<tau> \<and> (ctx_done w \<tau> \<longrightarrow> \<not> pick_done w \<tau>)"
proof (induction fuel arbitrary: now ch)
  case 0
  then show ?case by simp
next
  case (Suc fuel)
  show ?case
  proof (cases "recv w ch")
    case None
    with Suc.prems show ?thesis by (simp split: option.splits)
  next
    case (Some a)
    obtain v ch' where a: "a = (v, ch')" by (cases a)
    show ?thesis
    proof (cases "ctx_done w now \<and> pick_done w now")
      case True
      with Some a Suc.prems show ?thesis by simp
    next
      case False
      obtain evs r where h: "handleMessage fuel w (Suc now) ch' = (evs, r)"
        by (cases "handleMessage fuel w (Suc now) ch'")
      with Some a False Suc.prems have "(\<tau>, e) = (now, EvGo v) \<or> (\<tau>, e) \<in> set evs"
        by auto
      then show ?thesis
      proof
        assume "(\<tau>, e) = (now, EvGo v)"
        with False show ?thesis by auto
      next
        assume "(\<tau>, e) \<in> set evs"
        with h Suc.IH [of "Suc now" ch'] show ?thesis by auto
      qed
    qed
  qed
qed

text \<open>
  Every \<open>Consume\<close> of the goroutine has the same arguments and is made in an iteration
  whose check found the context not canceled.
\<close>

lemma Subscribe_func1_trace:
  "(\<tau>, e) \<in> set (fst (Subscribe_func1 fuel m w q now k)) \<Longrightarrow>
     (is_Consume e \<longrightarrow>
        \<not> ctx_done w \<tau> \<and> e = EvConsume q (''consumer.'' @ q) False False False False None) \<and>
     (is_Go e \<and> ctx_done w \<tau> \<longrightarrow> \<not> pick_done w \<tau>)"
proof (induction fuel arbitrary: now k)
  case 0
  then show ?case by simp
next
  case (Suc fuel)
  show ?case
  proof (cases "ctx_done w now")
    case True
    with Suc.prems show ?thesis by simp
  next
    case nd: False
    show ?thesis
    proof (cases "Consume w k")
      case (Inl err)
      obtain evs r where h: "Subscribe_func1 fuel m w q (Suc now) (Suc k) = (evs, r)"
        by (cases "Subscribe_func1 fuel m w q (Suc now) (Suc k)")
      with Inl nd Suc.prems
      have "(\<tau>, e) = (now, EvConsume q (''consumer.'' @ q) False False False False None) \<or>
            (\<tau>, e) = (now, LogConsumer ''consumer failed'' err) \<or> (\<tau>, e) \<in> set evs"
        by auto
      with nd h Suc.IH [of "Suc now" "Suc k"] show ?thesis by auto
    next
      case (Inr deliveries)
      obtain evs r where hm: "handleMessage m w (Suc now) deliveries = (evs, r)"
        by (cases "handleMessage m w (Suc now) deliveries")
      have inner: "(\<tau>, e) \<in> set evs \<Longrightarrow> ?thesis"
        using handleMessage_trace [of \<tau> e m w "Suc now" deliveries] hm
        by (cases e) auto
      show ?thesis
      proof (cases r)
        case (Returned now')
        obtain evs' r' where h: "Subscribe_func1 fuel m w q now' (Suc k) = (evs', r')"
          by (cases "Subscribe_func1 fuel m w q now' (Suc k)")
        with Inr nd hm Returned Suc.prems
        have "(\<tau>, e) = (now, EvConsume q (''consumer.'' @ q) False False False False None) \<or>
              (\<tau>, e) \<in> set evs \<or> (\<tau>, e) \<in> set evs'"
          by auto
        with nd h inner Suc.IH [of now' "Suc k"] show ?thesis by auto
      next
        case Blocked
        with Inr nd hm Suc.prems
        have "(\<tau>, e) = (now, EvConsume q (''consumer.'' @ q) False False False False None) \<or>
              (\<tau>, e) \<in> set evs"
          by auto
        with nd inner show ?thesis by auto
      next
        case Running
        with Inr nd hm Suc.prems
        have "(\<tau>, e) = (now, EvConsume q (''consumer.'' @ q) False False False False None) \<or>
              (\<tau>, e) \<in> set evs"
          by auto
        with nd inner show ?thesis by auto
      qed
    qed
  qed
qed

lemma Subscribe_trace_eq:
  "fst (snd (Subscribe fuel m x t w q)) = fst (Subscribe_func1 fuel m w q 0 0)"
  by (simp add: Subscribe_def split: prod.splits)

lemma Subscribe_tasks_eq:
  "snd (snd (Subscribe fuel m x t w q)) =
     map (handleMessage_func1 x t) (submitted (fst (Subscribe_func1 fuel m w q 0 0)))"
  by (simp add: Subscribe_def split: prod.splits)

lemma Subscribe_outcome:
  "fst (Subscribe fuel m x t w q) =
     (case snd (Subscribe_func1 fuel m w q 0 0) of
        Returned u \<Rightarrow> Returned None | Blocked \<Rightarrow> Blocked | Running \<Rightarrow> Running)"
  by (simp add: Subscribe_def split: prod.splits)

subsection \<open>Returning after cancellation\<close>

text \<open>
  When the context is canceled at clock value \<open>c\<close> and every later \<open>select\<close> takes
  \<open>ctx.Done()\<close>, both loops return, given fuel for the iterations up to \<open>c\<close>.
\<close>

lemma handleMessage_returns:
  assumes "cancel_at w = Some c" and "\<forall>\<tau>\<ge>c. pick_done w \<tau>"
  shows "c < now + fuel \<Longrightarrow> 0 < fuel \<Longrightarrow>
         \<exists>evs now'. handleMessage fuel w now ch = (evs, Returned now') \<and> c \<le> now'"
proof (induction fuel arbitrary: now ch)
  case 0
  then show ?case by simp
next
  case (Suc fuel)
  show ?case
  proof (cases "recv w ch")
    case None
    with assms(1) show ?thesis by simp
  next
    case (Some a)
    obtain v ch' where a: "a = (v, ch')" by (cases a)
    show ?thesis
    proof (cases "c \<le> now")
      case True
      with assms have "ctx_done w now \<and> pick_done w now"
        by (simp add: ctx_done_def)
      with Some a True show ?thesis by simp
    next
      case False
      with assms(1) have nd: "\<not> ctx_done w now" by (simp add: ctx_done_def)
      from False Suc.prems have "c < Suc now + fuel" "0 < fuel" by simp_all
      from Suc.IH [OF this, of ch'] obtain evs now'
        where "handleMessage fuel w (Suc now) ch' = (evs, Returned now')" "c \<le> now'"
        by blast
      with Some a nd show ?thesis by simp
    qed
  qed
qed

lemma Subscribe_func1_returns:
  assumes "cancel_at w = Some c" and "\<forall>\<tau>\<ge>c. pick_done w \<tau>" and "c < m"
  shows "c < now + fuel \<Longrightarrow> 0 < fuel \<Longrightarrow> snd (Subscribe_func1 fuel m w q now k) = Returned ()"
proof (induction fuel arbitrary: now k)
  case 0
  then show ?case by simp
next
  case (Suc fuel)
  show ?case
  proof (cases "c \<le> now")
    case True
    with assms(1) have "ctx_done w now" by (simp add: ctx_done_def)
    then show ?thesis by simp
  next
    case False
    with assms(1) have nd: "\<not> ctx_done w now" by (simp add: ctx_done_def)
    from False Suc.prems have f: "0 < fuel" by simp
    show ?thesis
    proof (cases "Consume w k")
      case (Inl err)
      from False Suc.prems have "c < Suc now + fuel" by simp
      from Suc.IH [OF this f, of "Suc k"] Inl nd show ?thesis
        by (auto split: prod.splits)
    next
      case (Inr deliveries)
      from assms(3) have "c < Suc now + m" "0 < m" by simp_all
      from handleMessage_returns [OF assms(1,2) this, of deliveries] obtain evs now'
        where hm: "handleMessage m w (Suc now) deliveries = (evs, Returned now')" "c \<le> now'"
        by blast
      from hm(2) f have "c < now' + fuel" by simp
      from Suc.IH [OF this f, of "Suc k"] Inr nd hm(1) show ?thesis
        by (auto split: prod.splits)
    qed
  qed
qed

subsection \<open>Retrying Consume\<close>

lemma Subscribe_func1_retries:
  "\<forall>i<j. \<not> ctx_done w (now + i) \<and> Consume w (k + i) = Inl (errs i) \<Longrightarrow>
   Subscribe_func1 (j + fuel) m w q now k =
     (concat (map (\<lambda>i. [(now + i, EvConsume q (''consumer.'' @ q) False False False False None),
                         (now + i, LogConsumer ''consumer failed'' (errs i))]) [0..<j]) @
        fst (Subscribe_func1 fuel m w q (now + j) (k + j)),
      snd (Subscribe_func1 fuel m w q (now + j) (k + j)))"
proof (induction j arbitrary: now k errs)
  case 0
  show ?case by simp
next
  case (Suc j)
  from Suc.prems have nd: "\<not> ctx_done w now" and c: "Consume w k = Inl (errs 0)"
    by force+
  from Suc.prems have "\<forall>i<j. \<not> ctx_done w (Suc now + i) \<and> Consume w (Suc k + i) = Inl ((errs \<circ> Suc) i)"
    by auto
  from Suc.IH [OF this]
  have ih: "Subscribe_func1 (j + fuel) m w q (Suc now) (Suc k) =
     (concat (map (\<lambda>i. [(Suc now + i, EvConsume q (''consumer.'' @ q) False False False False None),
                         (Suc now + i, LogConsumer ''consumer failed'' ((errs \<circ> Suc) i))]) [0..<j]) @
        fst (Subscribe_func1 fuel m w q (Suc now + j) (Suc k + j)),
      snd (Subscribe_func1 fuel m w q (Suc now + j) (Suc k + j)))" .
  have u: "[0..<Suc j] = 0 # map Suc [0..<j]"
    by (simp add: upt_conv_Cons map_Suc_upt del: upt_Suc)
  show ?case
    using nd c ih by (simp add: u comp_def del: upt_Suc)
qed

subsection \<open>Runs\<close>

lemma late_run:
  "Subscribe 3 3 demo_extern demo_consumer late_world ''q'' =
     (Returned None,
      [(0, EvConsume ''q'' ''consumer.q'' False False False False None),
       (1, EvGo ''ping''), (2, EvGo ''pong'')],
      [[LogDebugf ''ping'', EvGet, EvRun ''ping'', EvPut ''ping'', EvAck False],
       [LogDebugf ''pong'', EvGet, EvRun ''pong'', EvPut ''pong'', EvAck False,
        LogError ''handle failed'' ''channel closed'']])"
  by code_simp

lemma demo_run:
  "Subscribe 6 6 demo_extern demo_consumer demo_world ''q'' =
     (Returned None,
      [(0, EvConsume ''q'' ''consumer.q'' False False False False None),
       (0, LogConsumer ''consumer failed'' ''channel not open''),
       (1, EvConsume ''q'' ''consumer.q'' False False False False None),
       (1, LogConsumer ''consumer failed'' ''channel not open''),
       (2, EvConsume ''q'' ''consumer.q'' False False False False None),
       (3, EvGo ''ping''), (4, EvGo ''pong'')],
      [[LogDebugf ''ping'', EvGet, EvRun ''ping'', EvPut ''ping'', EvAck False],
       [LogDebugf ''pong'', EvGet, EvRun ''pong'', EvPut ''pong'', EvAck False,
        LogError ''handle failed'' ''channel closed'']])"
  by code_simp

lemma demo_rest:
  "Subscribe_func1 6 6 demo_world ''q'' 2 2 =
     ([(2, EvConsume ''q'' ''consumer.q'' False False False False None),
       (3, EvGo ''ping''), (4, EvGo ''pong'')], Returned ())"
  by code_simp

subsection \<open>Claims\<close>

text \<open>
  Claim C5: \<open>handleMessage\<close> returns, so that the outer loop can open the stream
  again, whenever the delivery stream closes, and also when the context is canceled; it
  does not keep looping over a closed stream.
  The code does keep looping: the receive has no \<open>ok\<close> result, so on a closed stream it
  yields the zero delivery at once, every time. With a context that is not canceled,
  \<open>handleMessage\<close> is still running after any number of iterations and has submitted
  the zero delivery to the pool in each of them.
\<close>

theorem handleMessage_closed_stream_spins:
  "handleMessage fuel never_canceled now \<lparr> pending = [], closed = True \<rparr> =
     (map (\<lambda>i. (i, EvGo [])) [now..<now + fuel], Running)"
proof -
  have "cancel_at never_canceled = None" by (simp add: never_canceled_def)
  from handleMessage_closed_spins [OF this, of fuel now]
  show ?thesis by (simp add: never_canceled_def)
qed

text \<open>
  Claim C6: \<open>Subscribe\<close> never returns a non-nil error: the errors of a message
  (decode, validation, handler, also a failing \<open>Ack\<close> or \<open>Reject\<close>) stay in its
  task and never reach the caller; \<open>Subscribe\<close> blocks on the pool's \<open>Wait\<close> and then
  returns \<open>nil\<close>. The second part of the theorem says that it does return: when the
  context is canceled at clock value \<open>c\<close> and every later \<open>select\<close> takes
  \<open>ctx.Done()\<close>, fuel \<open>c + 1\<close> is enough.
\<close>

theorem Subscribe_returns_nil:
  "fst (Subscribe fuel m x t w q) \<noteq> Returned (Some e) \<and>
   (cancel_at w = Some c \<and> (\<forall>\<tau>\<ge>c. pick_done w \<tau>) \<longrightarrow>
      fst (Subscribe (Suc c) (Suc c) x t w q) = Returned None)"
proof (intro conjI impI)
  show "fst (Subscribe fuel m x t w q) \<noteq> Returned (Some e)"
    by (simp add: Subscribe_outcome split: outcome.splits)
next
  assume a: "cancel_at w = Some c \<and> (\<forall>\<tau>\<ge>c. pick_done w \<tau>)"
  then have "snd (Subscribe_func1 (Suc c) (Suc c) w q 0 0) = Returned ()"
    using Subscribe_func1_returns [of w c "Suc c" 0 "Suc c" q 0] by simp
  then show "fst (Subscribe (Suc c) (Suc c) x t w q) = Returned None"
    by (simp add: Subscribe_outcome)
qed

theorem Subscribe_returns_nil_witness:
  "cancel_at demo_world = Some 5 \<and> (\<forall>\<tau>. pick_done demo_world \<tau>) \<and>
   fst (Subscribe 6 6 demo_extern demo_consumer demo_world ''q'') = Returned None \<and>
   fst (Subscribe 6 6 demo_extern demo_consumer demo_world ''q'') \<noteq> Returned (Some ''channel closed'') \<and>
   snd (snd (Subscribe 6 6 demo_extern demo_consumer demo_world ''q'')) =
     [[LogDebugf ''ping'', EvGet, EvRun ''ping'', EvPut ''ping'', EvAck False],
      [LogDebugf ''pong'', EvGet, EvRun ''pong'', EvPut ''pong'', EvAck False,
       LogError ''handle failed'' ''channel closed'']]"
proof -
  have h: "cancel_at demo_world = Some 5 \<and> (\<forall>\<tau>\<ge>5. pick_done demo_world \<tau>)"
    by (simp add: demo_world_def)
  have s: "Suc 5 = 6" by simp
  have p: "\<forall>\<tau>. pick_done demo_world \<tau>"
    by (simp add: demo_world_def)
  from Subscribe_returns_nil [of 6 6 demo_extern demo_consumer demo_world "''q''" "''channel closed''" 5]
    h
  have "fst (Subscribe 6 6 demo_extern demo_consumer demo_world ''q'') = Returned None \<and>
        fst (Subscribe 6 6 demo_extern demo_consumer demo_world ''q'') \<noteq>
          Returned (Some ''channel closed'')"
    by (simp only: s) simp
  with h p demo_run show ?thesis by simp
qed

text \<open>
  The claim C7 says that after the context is canceled the consumer never submits a new
  pool task. In \<open>late_world\<close> the context is canceled at clock value 2 while a delivery
  is waiting; the \<open>select\<close> of \<open>handleMessage\<close> can take either case, takes the
  receive, and the delivery \<open>pong\<close> is submitted at clock value 2.
\<close>

theorem late_submission_counterexample:
  "ctx_done late_world 2 \<and>
   fst (snd (Subscribe 3 3 demo_extern demo_consumer late_world ''q'')) =
     [(0, EvConsume ''q'' ''consumer.q'' False False False False None),
      (1, EvGo ''ping''), (2, EvGo ''pong'')]"
proof -
  have "ctx_done late_world 2" by (simp add: ctx_done_def late_world_def)
  moreover have "fst (snd (Subscribe 3 3 demo_extern demo_consumer late_world ''q'')) =
     [(0, EvConsume ''q'' ''consumer.q'' False False False False None),
      (1, EvGo ''ping''), (2, EvGo ''pong'')]"
    by (simp add: late_run)
  ultimately show ?thesis by simp
qed

text \<open>
  Claim C7, amended: after the context is canceled the consumer opens no new delivery
  stream: every \<open>Consume\<close> is made in an iteration of the loop of \<open>Subscribe\<close> whose
  check found the context not canceled, and an iteration that finds it canceled returns.
  \<open>handleMessage\<close> returns, submitting nothing, at the first \<open>select\<close> that takes
  \<open>ctx.Done()\<close>, which is certain when the context is canceled and no delivery is ready;
  a task is submitted after cancellation only by a \<open>select\<close> that took the receive
  although \<open>ctx.Done()\<close> was ready too. Every submitted task, whenever it was submitted,
  runs \<open>handle\<close> to its one terminal call: the core does not abort it.
\<close>

theorem cancellation_stops_loops:
  "(\<forall>(\<tau>, e) \<in> set (fst (snd (Subscribe fuel m x t w q))).
      (is_Consume e \<longrightarrow> \<not> ctx_done w \<tau>) \<and>
      (is_Go e \<and> ctx_done w \<tau> \<longrightarrow> \<not> pick_done w \<tau>)) \<and>
   (ctx_done w now \<longrightarrow> Subscribe_func1 (Suc fuel) m w q now k = ([], Returned ())) \<and>
   (ctx_done w now \<and> (recv w ch = None \<or> pick_done w now) \<longrightarrow>
      handleMessage (Suc fuel) w now ch = ([], Returned (Suc now))) \<and>
   (\<forall>evs \<in> set (snd (snd (Subscribe fuel m x t w q))). length (filter is_terminal evs) = 1)"
proof (intro conjI)
  show "\<forall>(\<tau>, e) \<in> set (fst (snd (Subscribe fuel m x t w q))).
      (is_Consume e \<longrightarrow> \<not> ctx_done w \<tau>) \<and>
      (is_Go e \<and> ctx_done w \<tau> \<longrightarrow> \<not> pick_done w \<tau>)"
    using Subscribe_func1_trace [of _ _ fuel m w q 0 0]
    by (auto simp add: Subscribe_trace_eq)
next
  show "ctx_done w now \<longrightarrow> Subscribe_func1 (Suc fuel) m w q now k = ([], Returned ())"
    by simp
next
  show "ctx_done w now \<and> (recv w ch = None \<or> pick_done w now) \<longrightarrow>
      handleMessage (Suc fuel) w now ch = ([], Returned (Suc now))"
    by (auto simp add: ctx_done_def max_def split: option.splits)
next
  show "\<forall>evs \<in> set (snd (snd (Subscribe fuel m x t w q))). length (filter is_terminal evs) = 1"
    by (auto simp add: Subscribe_tasks_eq handleMessage_func1_terminal)
qed

theorem cancellation_stops_loops_witness:
  "fst (snd (Subscribe 3 3 demo_extern demo_consumer late_world ''q'')) =
     [(0, EvConsume ''q'' ''consumer.q'' False False False False None),
      (1, EvGo ''ping''), (2, EvGo ''pong'')] \<and>
   \<not> ctx_done late_world 0 \<and> \<not> ctx_done late_world 1 \<and>
   ctx_done late_world 2 \<and> \<not> pick_done late_world 2 \<and>
   ctx_done late_world 4 \<and>
   Subscribe_func1 (Suc 2) 3 late_world ''q'' 4 1 = ([], Returned ()) \<and>
   ctx_done late_world 3 \<and> pick_done late_world 3 \<and>
   handleMessage (Suc 0) late_world 3 \<lparr> pending = [''bad''], closed = False \<rparr> =
     ([], Returned (Suc 3)) \<and>
   recv late_world \<lparr> pending = [], closed = False \<rparr> = None \<and>
   handleMessage (Suc 0) late_world 2 \<lparr> pending = [], closed = False \<rparr> =
     ([], Returned (Suc 2)) \<and>
   map (\<lambda>evs. length (filter is_terminal evs))
     (snd (snd (Subscribe 3 3 demo_extern demo_consumer late_world ''q''))) = [1, 1]"
proof -
  have c: "\<not> ctx_done late_world 0" "\<not> ctx_done late_world 1" "ctx_done late_world 2"
    "ctx_done late_world 3" "ctx_done late_world 4"
    "\<not> pick_done late_world 2" "pick_done late_world 3"
    by (simp_all add: ctx_done_def late_world_def)
  have r: "recv late_world \<lparr> pending = [], closed = False \<rparr> = None"
    by (simp add: recv_def)
  from cancellation_stops_loops
         [of 3 3 demo_extern demo_consumer late_world "''q''" 4 1 "\<lparr> pending = [''bad''], closed = False \<rparr>"]
    cancellation_stops_loops
         [of 2 3 demo_extern demo_consumer late_world "''q''" 4 1 "\<lparr> pending = [''bad''], closed = False \<rparr>"]
    cancellation_stops_loops
         [of 0 3 demo_extern demo_consumer late_world "''q''" 3 1 "\<lparr> pending = [''bad''], closed = False \<rparr>"]
    cancellation_stops_loops
         [of 0 3 demo_extern demo_consumer late_world "''q''" 2 1 "\<lparr> pending = [], closed = False \<rparr>"]
    c r late_run
  show ?thesis by simp
qed

text \<open>
  Claim C9: every call of \<open>Consume\<close> that \<open>Subscribe\<close> makes has the queue name, the
  consumer tag \<open>consumer.\<close> followed by the queue name, \<open>false\<close> for \<open>autoAck\<close>,
  \<open>exclusive\<close>, \<open>noLocal\<close> and \<open>noWait\<close>, and \<open>nil\<close> arguments; when \<open>Consume\<close> fails
  the loop logs and tries again at once: while the context is not canceled, \<open>j\<close>
  failures in a row give \<open>j\<close> times the pair of a \<open>Consume\<close> and a log entry, with
  nothing between them, and the loop goes on.
\<close>

theorem Subscribe_Consume_calls:
  "(\<forall>(\<tau>, e) \<in> set (fst (snd (Subscribe fuel m x t w q))).
      is_Consume e \<longrightarrow> e = EvConsume q (''consumer.'' @ q) False False False False None) \<and>
   ((\<forall>i<j. \<not> ctx_done w (now + i) \<and> Consume w (k + i) = Inl (errs i)) \<longrightarrow>
      Subscribe_func1 (j + fuel) m w q now k =
        (concat (map (\<lambda>i. [(now + i, EvConsume q (''consumer.'' @ q) False False False False None),
                            (now + i, LogConsumer ''consumer failed'' (errs i))]) [0..<j]) @
           fst (Subscribe_func1 fuel m w q (now + j) (k + j)),
         snd (Subscribe_func1 fuel m w q (now + j) (k + j))))"
proof (intro conjI impI)
  show "\<forall>(\<tau>, e) \<in> set (fst (snd (Subscribe fuel m x t w q))).
      is_Consume e \<longrightarrow> e = EvConsume q (''consumer.'' @ q) False False False False None"
    using Subscribe_func1_trace [of _ _ fuel m w q 0 0]
    by (auto simp add: Subscribe_trace_eq)
next
  assume "\<forall>i<j. \<not> ctx_done w (now + i) \<and> Consume w (k + i) = Inl (errs i)"
  then show "Subscribe_func1 (j + fuel) m w q now k =
        (concat (map (\<lambda>i. [(now + i, EvConsume q (''consumer.'' @ q) False False False False None),
                            (now + i, LogConsumer ''consumer failed'' (errs i))]) [0..<j]) @
           fst (Subscribe_func1 fuel m w q (now + j) (k + j)),
         snd (Subscribe_func1 fuel m w q (now + j) (k + j)))"
    by (rule Subscribe_func1_retries)
qed

theorem Subscribe_Consume_calls_witness:
  "\<not> ctx_done demo_world 0 \<and> Consume demo_world 0 = Inl ''channel not open'' \<and>
   \<not> ctx_done demo_world 1 \<and> Consume demo_world 1 = Inl ''channel not open'' \<and>
   Subscribe_func1 (2 + 6) 6 demo_world ''q'' 0 0 =
     ([(0, EvConsume ''q'' ''consumer.q'' False False False False None),
       (0, LogConsumer ''consumer failed'' ''channel not open''),
       (1, EvConsume ''q'' ''consumer.q'' False False False False None),
       (1, LogConsumer ''consumer failed'' ''channel not open''),
       (2, EvConsume ''q'' ''consumer.q'' False False False False None),
       (3, EvGo ''ping''), (4, EvGo ''pong'')], Returned ()) \<and>
   filter is_Consume (map snd (fst (snd (Subscribe 6 6 demo_extern demo_consumer demo_world ''q'')))) =
     [EvConsume ''q'' ''consumer.q'' False False False False None,
      EvConsume ''q'' ''consumer.q'' False False False False None,
      EvConsume ''q'' ''consumer.q'' False False False False None]"
proof -
  have h: "\<forall>i<2. \<not> ctx_done demo_world (0 + i) \<and> Consume demo_world (0 + i) = Inl ''channel not open''"
    by (simp add: ctx_done_def demo_world_def)
  have u: "[0..<2] = [0, 1]" by (simp add: upt_conv_Cons)
  note inst = Subscribe_Consume_calls
         [of 6 6 demo_extern demo_consumer demo_world "''q''" 2 0 0 "\<lambda>i. ''channel not open''"]
  from inst h
  have "Subscribe_func1 (2 + 6) 6 demo_world ''q'' 0 0 =
     (concat (map (\<lambda>i. [(0 + i, EvConsume ''q'' (''consumer.'' @ ''q'') False False False False None),
                         (0 + i, LogConsumer ''consumer failed'' ''channel not open'')]) [0..<2]) @
        fst (Subscribe_func1 6 6 demo_world ''q'' (0 + 2) (0 + 2)),
      snd (Subscribe_func1 6 6 demo_world ''q'' (0 + 2) (0 + 2)))"
    by blast
  then have p2: "Subscribe_func1 (2 + 6) 6 demo_world ''q'' 0 0 =
     ([(0, EvConsume ''q'' ''consumer.q'' False False False False None),
       (0, LogConsumer ''consumer failed'' ''channel not open''),
       (1, EvConsume ''q'' ''consumer.q'' False False False False None),
       (1, LogConsumer ''consumer failed'' ''channel not open''),
       (2, EvConsume ''q'' ''consumer.q'' False False False False None),
       (3, EvGo ''ping''), (4, EvGo ''pong'')], Returned ())"
    by (simp only: u demo_rest add_0 list.map concat.simps append.simps fst_conv snd_conv
          add_0_right)
  from inst demo_run
  have p1: "filter is_Consume (map snd (fst (snd (Subscribe 6 6 demo_extern demo_consumer demo_world ''q'')))) =
     [EvConsume ''q'' ''consumer.q'' False False False False None,
      EvConsume ''q'' ''consumer.q'' False False False False None,
      EvConsume ''q'' ''consumer.q'' False False False False None]"
    by simp
  have c: "\<not> ctx_done demo_world 0" "Consume demo_world 0 = Inl ''channel not open''"
    "\<not> ctx_done demo_world 1" "Consume demo_world 1 = Inl ''channel not open''"
    by (simp_all add: ctx_done_def demo_world_def)
  from c p1 p2 show ?thesis by blast
qed

end
